theory Spec2Isabelle
  imports Complex_Main
begin

section \<open>Values, errors and array access\<close>

text \<open>
  The three engines are Python classes working on NumPy arrays. Samples and the
  parameters \<open>_lambda\<close>, \<open>_nu\<close> are modelled as reals; a cell of a cost matrix is a
  real or \<open>np.inf\<close>. Every \<open>assert\<close>, every out-of-range index and the read of a
  local variable that was never bound is a value of type \<open>error\<close>.
\<close>

datatype assertion = NuNegative | LengthsDiffer nat nat | NotAMatrix nat

datatype error = AssertionError assertion | IndexError | UnboundLocalError

datatype cost = Fin real | PInf

fun addc :: "cost \<Rightarrow> real \<Rightarrow> cost" where
  "addc (Fin x) y = Fin (x + y)"
| "addc PInf y = PInf"

fun ltc :: "cost \<Rightarrow> cost \<Rightarrow> bool" where
  "ltc (Fin x) (Fin y) = (x < y)"
| "ltc (Fin x) PInf = True"
| "ltc PInf c = False"

fun lec :: "cost \<Rightarrow> cost \<Rightarrow> bool" where
  "lec (Fin x) (Fin y) = (x \<le> y)"
| "lec c PInf = True"
| "lec PInf (Fin y) = False"

text \<open>Python's \<open>min(a, b, c)\<close>: the first of the smallest arguments.\<close>

definition min3 :: "cost \<Rightarrow> cost \<Rightarrow> cost \<Rightarrow> cost" where
  "min3 a b c = (let r = (if ltc b a then b else a) in if ltc c r then c else r)"

definition bindE :: "error + 'a \<Rightarrow> ('a \<Rightarrow> error + 'b) \<Rightarrow> error + 'b" where
  "bindE r f = (case r of Inl e \<Rightarrow> Inl e | Inr v \<Rightarrow> f v)"

text \<open>A \<open>for\<close> loop over a list of indices; an exception in the body ends the loop.\<close>

fun foldE :: "('a \<Rightarrow> 's \<Rightarrow> error + 's) \<Rightarrow> 'a list \<Rightarrow> 's \<Rightarrow> error + 's" where
  "foldE f [] s = Inr s"
| "foldE f (x # xs) s = (case f x s of Inl e \<Rightarrow> Inl e | Inr s' \<Rightarrow> foldE f xs s')"

definition zeros :: "nat \<Rightarrow> nat \<Rightarrow> cost list list" where
  "zeros r c = replicate r (replicate c (Fin 0))"

definition get2 :: "cost list list \<Rightarrow> nat \<Rightarrow> nat \<Rightarrow> error + cost" where
  "get2 M i j = (if i < length M \<and> j < length (M ! i) then Inr (M ! i ! j) else Inl IndexError)"

definition set2 :: "cost list list \<Rightarrow> nat \<Rightarrow> nat \<Rightarrow> cost \<Rightarrow> error + cost list list" where
  "set2 M i j v =
     (if i < length M \<and> j < length (M ! i) then Inr (M[i := (M ! i)[j := v]]) else Inl IndexError)"

text \<open>
  An index that may be negative (only the final read \<open>matrix[.., m-1]\<close> can be:
  inside the loops \<open>i\<close> and \<open>j\<close> start at 1): Python counts it from the end.
\<close>

definition py_index :: "nat \<Rightarrow> int \<Rightarrow> error + nat" where
  "py_index len i =
     (if 0 \<le> i \<and> i < int len then Inr (nat i)
      else if i < 0 \<and> - int len \<le> i then Inr (nat (int len + i))
      else Inl IndexError)"

definition get2_py :: "cost list list \<Rightarrow> int \<Rightarrow> int \<Rightarrow> error + cost" where
  "get2_py M i j =
     bindE (py_index (length M) i) (\<lambda>r.
     bindE (py_index (length (M ! r)) j) (\<lambda>c. Inr (M ! r ! c)))"


section \<open>The naive full-matrix engine: class TWED\<close>

record twed =
  tw_t1 :: "real list"
  tw_t2 :: "real list"
  tw_lambda :: real
  tw_nu :: real
  tw_n :: nat
  tw_m :: nat

definition TWED_init :: "real list \<Rightarrow> real list \<Rightarrow> real \<Rightarrow> real \<Rightarrow> error + twed" where
  "TWED_init t1 t2 lam nu =
     (if \<not> nu \<ge> 0 then Inl (AssertionError NuNegative)
      else Inr \<lparr>tw_t1 = t1, tw_t2 = t2, tw_lambda = lam, tw_nu = nu,
                tw_n = length t1, tw_m = length t2\<rparr>)"

text \<open>
  \<open>_init_matrix(n, m)\<close>: one loop over \<open>range(len(matrix))\<close>, that is over the \<open>n\<close>
  rows, writes both \<open>matrix[i][0]\<close> and \<open>matrix[0][i]\<close>.
\<close>

definition TWED_init_matrix :: "nat \<Rightarrow> nat \<Rightarrow> error + cost list list" where
  "TWED_init_matrix n m =
     bindE (foldE (\<lambda>i M. bindE (set2 M i 0 PInf) (\<lambda>M'. set2 M' 0 i PInf))
              [0..<n] (zeros n m))
       (\<lambda>M. set2 M 0 0 (Fin 0))"

text \<open>\<open>np.arange(1, n + 1, 1)[k]\<close> for an index \<open>k < n\<close>.\<close>

definition arange1 :: "nat \<Rightarrow> int" where
  "arange1 k = int k + 1"

text \<open>
  The three candidates of a cell. The loops run \<open>i\<close> over \<open>range(1, n)\<close> and \<open>j\<close>
  over \<open>range(1, m)\<close> with \<open>n = len(t1)\<close> and \<open>m = len(t2)\<close>, so the reads of
  \<open>t1_data\<close> and \<open>t2_data\<close> are in range and written with \<open>!\<close>.
\<close>

definition TWED_deleteA :: "real \<Rightarrow> real \<Rightarrow> real list \<Rightarrow> nat \<Rightarrow> cost \<Rightarrow> cost" where
  "TWED_deleteA nu lam t1 i up =
     addc (addc (addc up \<bar>t1 ! (i - 1) - t1 ! i\<bar>)
                (nu * of_int (arange1 i - arange1 (i - 1)))) lam"

definition TWED_deleteB :: "real \<Rightarrow> real \<Rightarrow> real list \<Rightarrow> nat \<Rightarrow> cost \<Rightarrow> cost" where
  "TWED_deleteB nu lam t2 j left =
     addc (addc (addc left \<bar>t2 ! (j - 1) - t2 ! j\<bar>)
                (nu * of_int (arange1 j - arange1 (j - 1)))) lam"

definition TWED_match :: "real \<Rightarrow> real list \<Rightarrow> real list \<Rightarrow> nat \<Rightarrow> nat \<Rightarrow> cost \<Rightarrow> cost" where
  "TWED_match nu t1 t2 i j diag =
     addc (addc (addc diag \<bar>t1 ! i - t2 ! j\<bar>) \<bar>t1 ! (i - 1) - t2 ! (j - 1)\<bar>)
          (nu * of_int (\<bar>arange1 i - arange1 j\<bar> + \<bar>arange1 (i - 1) - arange1 (j - 1)\<bar>))"

definition TWED_body ::
  "real \<Rightarrow> real \<Rightarrow> real list \<Rightarrow> real list \<Rightarrow> nat \<Rightarrow> nat \<Rightarrow> cost list list \<Rightarrow> error + cost list list" where
  "TWED_body nu lam t1 t2 i j M =
     bindE (get2 M (i - 1) j) (\<lambda>up.
     bindE (get2 M i (j - 1)) (\<lambda>left.
     bindE (get2 M (i - 1) (j - 1)) (\<lambda>diag.
     set2 M i j (min3 (TWED_deleteA nu lam t1 i up) (TWED_deleteB nu lam t2 j left)
                      (TWED_match nu t1 t2 i j diag)))))"

definition TWED_sweep ::
  "real \<Rightarrow> real \<Rightarrow> real list \<Rightarrow> real list \<Rightarrow> nat \<Rightarrow> nat \<Rightarrow> cost list list \<Rightarrow> error + cost list list" where
  "TWED_sweep nu lam t1 t2 n m M =
     foldE (\<lambda>i M. foldE (\<lambda>j M. TWED_body nu lam t1 t2 i j M) [1..<m] M) [1..<n] M"

definition TWED_calculateCosts :: "twed \<Rightarrow> error + cost" where
  "TWED_calculateCosts self =
     bindE (TWED_init_matrix (tw_n self) (tw_m self)) (\<lambda>matrix.
     bindE (TWED_sweep (tw_nu self) (tw_lambda self) (tw_t1 self) (tw_t2 self)
              (tw_n self) (tw_m self) matrix) (\<lambda>matrix.
     get2_py matrix (int (tw_n self) - 1) (int (tw_m self) - 1)))"

text \<open>\<open>TWED(t1, t2, _lambda, _nu).calculateCosts()\<close>\<close>

definition TWED :: "real list \<Rightarrow> real list \<Rightarrow> real \<Rightarrow> real \<Rightarrow> error + cost" where
  "TWED t1 t2 lam nu = bindE (TWED_init t1 t2 lam nu) TWED_calculateCosts"


section \<open>The rolling-buffer engine: class memTWED\<close>

record memtwed =
  mt_t1 :: "real list"
  mt_t2 :: "real list"
  mt_lambda :: real
  mt_nu :: real
  mt_n :: nat
  mt_m :: nat

datatype printed = Warning_n_less_m

text \<open>
  \<open>__init__\<close> returns the object together with what it printed: the line
  "Warning: n < m will result in long runtimes!" or nothing.

  \<open>_calculateCosts\<close> is a static method under numba's \<open>jit\<close> decorator. The model
  gives it the meaning of its Python text: an index out of range and the read of an
  unbound local are exceptions.
\<close>

definition memTWED_init ::
  "real list \<Rightarrow> real list \<Rightarrow> real \<Rightarrow> real \<Rightarrow> bool \<Rightarrow> error + memtwed \<times> printed list" where
  "memTWED_init t1 t2 lam nu failOnDifferingLengths =
     (if \<not> nu \<ge> 0 then Inl (AssertionError NuNegative)
      else let self = \<lparr>mt_t1 = t1, mt_t2 = t2, mt_lambda = lam, mt_nu = nu,
                        mt_n = length t1, mt_m = length t2\<rparr>
           in if failOnDifferingLengths then
                (if \<not> mt_n self = mt_m self
                 then Inl (AssertionError (LengthsDiffer (mt_n self) (mt_m self)))
                 else Inr (self, []))
              else if mt_n self < mt_m self then Inr (self, [Warning_n_less_m])
              else Inr (self, []))"

text \<open>
  \<open>_init_matrix\<close>: \<open>np.zeros((2, self.n))\<close>, then row 0 and column 0 are set to
  \<open>np.inf\<close> by slice assignments and the origin to 0. Column 0 does not exist when
  \<open>n = 0\<close>.
\<close>

definition memTWED_init_matrix :: "nat \<Rightarrow> error + cost list list" where
  "memTWED_init_matrix n =
     (let M0 = zeros 2 n;
          M1 = M0[0 := replicate n PInf]
      in if n = 0 then Inl IndexError
         else set2 (map (\<lambda>r. r[0 := PInf]) M1) 0 0 (Fin 0))"

definition mem_deleteA :: "real \<Rightarrow> real \<Rightarrow> real list \<Rightarrow> nat \<Rightarrow> cost \<Rightarrow> cost" where
  "mem_deleteA nu lam t1 i up =
     addc (addc (addc up \<bar>t1 ! (i - 1) - t1 ! i\<bar>)
                (nu * of_int (int i - (int i - 1)))) lam"

definition mem_deleteB :: "real \<Rightarrow> real \<Rightarrow> real list \<Rightarrow> nat \<Rightarrow> cost \<Rightarrow> cost" where
  "mem_deleteB nu lam t2 j left =
     addc (addc (addc left \<bar>t2 ! (j - 1) - t2 ! j\<bar>)
                (nu * of_int (int j - (int j - 1)))) lam"

definition mem_match :: "real \<Rightarrow> real list \<Rightarrow> real list \<Rightarrow> nat \<Rightarrow> nat \<Rightarrow> cost \<Rightarrow> cost" where
  "mem_match nu t1 t2 i j diag =
     addc (addc (addc diag \<bar>t1 ! i - t2 ! j\<bar>) \<bar>t1 ! (i - 1) - t2 ! (j - 1)\<bar>)
          (nu * of_int (\<bar>int i - int j\<bar> + \<bar>(int i - 1) - (int j - 1)\<bar>))"

definition mem_body ::
  "real \<Rightarrow> real \<Rightarrow> real list \<Rightarrow> real list \<Rightarrow> nat \<Rightarrow> nat \<Rightarrow> nat \<Rightarrow> nat \<Rightarrow> cost list list
     \<Rightarrow> error + cost list list" where
  "mem_body nu lam t1 t2 i mi ai j M =
     bindE (get2 M ai j) (\<lambda>up.
     bindE (get2 M mi (j - 1)) (\<lambda>left.
     bindE (get2 M ai (j - 1)) (\<lambda>diag.
     set2 M mi j (min3 (mem_deleteA nu lam t1 i up) (mem_deleteB nu lam t2 j left)
                       (mem_match nu t1 t2 i j diag)))))"

text \<open>
  One turn of the outer loop. The state is the buffer and the local variable \<open>mi\<close>,
  which is unbound (\<open>None\<close>) until the first turn. The \<open>else\<close> branch of the inner
  \<open>for\<close> runs whenever that loop ends without \<open>break\<close>, so after every inner loop.
\<close>

definition mem_outer ::
  "real \<Rightarrow> real \<Rightarrow> real list \<Rightarrow> real list \<Rightarrow> nat \<Rightarrow> nat \<Rightarrow> cost list list \<times> nat option
     \<Rightarrow> error + cost list list \<times> nat option" where
  "mem_outer nu lam t1 t2 m i st =
     (let mi = i mod 2;
          ai = nat \<bar>int mi - 1\<bar>
      in bindE (foldE (\<lambda>j M. mem_body nu lam t1 t2 i mi ai j M) [1..<m] (fst st)) (\<lambda>M.
         bindE (set2 M 0 0 PInf) (\<lambda>M'. Inr (M', Some mi))))"

definition memTWED_calculateCosts' ::
  "cost list list \<Rightarrow> nat \<Rightarrow> nat \<Rightarrow> real \<Rightarrow> real \<Rightarrow> real list \<Rightarrow> real list \<Rightarrow> error + cost" where
  "memTWED_calculateCosts' matrix n m nu lam t1_data t2_data =
     bindE (foldE (mem_outer nu lam t1_data t2_data m) [1..<n] (matrix, None)) (\<lambda>st.
       case snd st of
         None \<Rightarrow> Inl UnboundLocalError
       | Some mi \<Rightarrow> get2_py (fst st) (int mi) (int m - 1))"

definition memTWED_calculateCosts :: "memtwed \<Rightarrow> error + cost" where
  "memTWED_calculateCosts self =
     bindE (memTWED_init_matrix (mt_n self)) (\<lambda>matrix.
       memTWED_calculateCosts' matrix (mt_n self) (mt_m self) (mt_nu self) (mt_lambda self)
         (mt_t1 self) (mt_t2 self))"

text \<open>\<open>memTWED(t1, t2, _lambda, _nu, failOnDifferingLengths).calculateCosts()\<close>\<close>

definition memTWED :: "real list \<Rightarrow> real list \<Rightarrow> real \<Rightarrow> real \<Rightarrow> bool \<Rightarrow> error + cost" where
  "memTWED t1 t2 lam nu strict =
     bindE (memTWED_init t1 t2 lam nu strict) (\<lambda>r. memTWED_calculateCosts (fst r))"


section \<open>The batch engine: class multiTWED\<close>

text \<open>
  \<open>t2\<close> is the nested sequence the caller wraps in \<open>np.array\<close>: the array is
  two-dimensional exactly when there is a row and all rows have the same length;
  a ragged or empty sequence gives a one-dimensional array.
\<close>

definition shape_dims :: "real list list \<Rightarrow> nat" where
  "shape_dims t2 =
     (if t2 \<noteq> [] \<and> list_all (\<lambda>r. length r = length (hd t2)) t2 then 2 else 1)"

definition ncols :: "real list list \<Rightarrow> nat" where
  "ncols t2 = length (hd t2)"

record multitwed =
  mu_t1 :: "real list"
  mu_t2 :: "real list list"
  mu_lambda :: real
  mu_nu :: real
  mu_n :: nat
  mu_m :: nat
  mu_numSeries :: nat

definition multiTWED_init ::
  "real list \<Rightarrow> real list list \<Rightarrow> real \<Rightarrow> real \<Rightarrow> error + multitwed" where
  "multiTWED_init t1 t2 lam nu =
     (if \<not> nu \<ge> 0 then Inl (AssertionError NuNegative)
      else let self = \<lparr>mu_t1 = t1, mu_t2 = t2, mu_lambda = lam, mu_nu = nu,
                        mu_n = length t1, mu_m = length t1, mu_numSeries = length t2\<rparr>
           in if \<not> shape_dims t2 = 2 then Inl (AssertionError (NotAMatrix (shape_dims t2)))
              else Inr self)"

text \<open>
  The buffer has shape \<open>(numSeries, 2, n)\<close>: a list of \<open>numSeries\<close> planes, each of
  two rows of \<open>n\<close> cells.
\<close>

definition multiTWED_init_matrix :: "nat \<Rightarrow> nat \<Rightarrow> error + cost list list list" where
  "multiTWED_init_matrix k n =
     (let M0 = replicate k (zeros 2 n);
          M1 = map (\<lambda>P. P[0 := replicate n PInf]) M0
      in if n = 0 then Inl IndexError
         else Inr (map (\<lambda>P. P[0 := (P ! 0)[0 := Fin 0]])
                    (map (map (\<lambda>r. r[0 := PInf])) M1)))"

text \<open>\<open>matrix[:, r, j]\<close> for a buffer of shape \<open>(k, 2, n)\<close>, read and written.\<close>

definition get_col :: "nat \<Rightarrow> cost list list list \<Rightarrow> nat \<Rightarrow> nat \<Rightarrow> error + cost list" where
  "get_col n M r j =
     (if r < 2 \<and> j < n then Inr (map (\<lambda>P. P ! r ! j) M) else Inl IndexError)"

definition set_col ::
  "nat \<Rightarrow> cost list list list \<Rightarrow> nat \<Rightarrow> nat \<Rightarrow> cost list \<Rightarrow> error + cost list list list" where
  "set_col n M r j v =
     (if r < 2 \<and> j < n then Inr (map2 (\<lambda>P x. P[r := (P ! r)[j := x]]) M v)
      else Inl IndexError)"

text \<open>\<open>t2_data[:, j]\<close>\<close>

definition t2_col :: "real list list \<Rightarrow> nat \<Rightarrow> error + real list" where
  "t2_col t2 j = (if j < ncols t2 then Inr (map (\<lambda>r. r ! j) t2) else Inl IndexError)"

definition multi_deleteA :: "real \<Rightarrow> real \<Rightarrow> real list \<Rightarrow> nat \<Rightarrow> cost list \<Rightarrow> cost list" where
  "multi_deleteA nu lam t1 i up =
     map (\<lambda>c. addc (addc (addc c \<bar>t1 ! (i - 1) - t1 ! i\<bar>)
                          (nu * of_int (int i - (int i - 1)))) lam) up"

definition multi_deleteB ::
  "real \<Rightarrow> real \<Rightarrow> nat \<Rightarrow> real list \<Rightarrow> real list \<Rightarrow> cost list \<Rightarrow> cost list" where
  "multi_deleteB nu lam j b0 b1 left =
     map2 (\<lambda>c d. addc (addc (addc c d) (nu * of_int (int j - (int j - 1)))) lam)
          left (map2 (\<lambda>x y. \<bar>x - y\<bar>) b0 b1)"

definition multi_match ::
  "real \<Rightarrow> real list \<Rightarrow> nat \<Rightarrow> nat \<Rightarrow> real list \<Rightarrow> real list \<Rightarrow> cost list \<Rightarrow> cost list" where
  "multi_match nu t1 i j b0 b1 diag =
     map (\<lambda>c. addc c (nu * of_int (\<bar>int i - int j\<bar> + \<bar>(int i - 1) - (int j - 1)\<bar>)))
       (map2 addc (map2 addc diag (map (\<lambda>y. \<bar>t1 ! i - y\<bar>) b1))
                  (map (\<lambda>y. \<bar>t1 ! (i - 1) - y\<bar>) b0))"

text \<open>\<open>np.min(np.stack((a, b, c), axis=1), axis=1)\<close>: the minimum of each triple.\<close>

definition stack_min :: "cost list \<Rightarrow> cost list \<Rightarrow> cost list \<Rightarrow> cost list" where
  "stack_min a b c = map (\<lambda>(x, y, z). min3 x y z) (zip a (zip b c))"

definition multi_body ::
  "real \<Rightarrow> real \<Rightarrow> real list \<Rightarrow> real list list \<Rightarrow> nat \<Rightarrow> nat \<Rightarrow> nat \<Rightarrow> nat \<Rightarrow> nat
     \<Rightarrow> cost list list list \<Rightarrow> error + cost list list list" where
  "multi_body nu lam t1 t2 n i mi ai j M =
     bindE (get_col n M ai j) (\<lambda>up.
     bindE (get_col n M mi (j - 1)) (\<lambda>left.
     bindE (t2_col t2 (j - 1)) (\<lambda>b0.
     bindE (t2_col t2 j) (\<lambda>b1.
     bindE (get_col n M ai (j - 1)) (\<lambda>diag.
     set_col n M mi j
       (stack_min (multi_deleteA nu lam t1 i up) (multi_deleteB nu lam j b0 b1 left)
                  (multi_match nu t1 i j b0 b1 diag)))))))"

definition multi_outer ::
  "real \<Rightarrow> real \<Rightarrow> real list \<Rightarrow> real list list \<Rightarrow> nat \<Rightarrow> nat \<Rightarrow> nat
     \<Rightarrow> cost list list list \<times> nat option \<Rightarrow> error + cost list list list \<times> nat option" where
  "multi_outer nu lam t1 t2 n m i st =
     (let mi = i mod 2;
          ai = nat \<bar>int mi - 1\<bar>
      in bindE (foldE (\<lambda>j M. multi_body nu lam t1 t2 n i mi ai j M) [1..<m] (fst st)) (\<lambda>M.
         bindE (if 0 < n then Inr (map (\<lambda>P. P[0 := (P ! 0)[0 := PInf]]) M) else Inl IndexError)
           (\<lambda>M'. Inr (M', Some mi))))"

definition multiTWED_calculateCosts :: "multitwed \<Rightarrow> error + cost list" where
  "multiTWED_calculateCosts self =
     bindE (multiTWED_init_matrix (mu_numSeries self) (mu_n self)) (\<lambda>matrix.
     bindE (foldE (multi_outer (mu_nu self) (mu_lambda self) (mu_t1 self) (mu_t2 self)
                     (mu_n self) (mu_m self))
              [1..<mu_n self] (matrix, None)) (\<lambda>st.
       case snd st of
         None \<Rightarrow> Inl UnboundLocalError
       | Some mi \<Rightarrow>
           bindE (py_index (mu_n self) (int (mu_m self) - 1)) (\<lambda>c.
             Inr (map (\<lambda>P. P ! mi ! c) (fst st)))))"

text \<open>\<open>multiTWED(t1, t2, _lambda, _nu).calculateCosts()\<close>\<close>

definition multiTWED :: "real list \<Rightarrow> real list list \<Rightarrow> real \<Rightarrow> real \<Rightarrow> error + cost list" where
  "multiTWED t1 t2 lam nu = bindE (multiTWED_init t1 t2 lam nu) multiTWED_calculateCosts"


section \<open>The recurrence on the conceptual full matrix\<close>

text \<open>
  The recurrence as the specification words it, with the default time stamps: row 0
  and column 0 are \<open>+\<infinity>\<close> except the origin, which is 0, and every other cell is the
  minimum of the three candidates built from its upper, left and diagonal neighbours.
  It is the yardstick the engines are compared with.
\<close>

fun twed_rec :: "real \<Rightarrow> real \<Rightarrow> real list \<Rightarrow> real list \<Rightarrow> nat \<Rightarrow> nat \<Rightarrow> cost" where
  "twed_rec nu lam t1 t2 0 0 = Fin 0"
| "twed_rec nu lam t1 t2 0 (Suc j) = PInf"
| "twed_rec nu lam t1 t2 (Suc i) 0 = PInf"
| "twed_rec nu lam t1 t2 (Suc i) (Suc j) =
     min3 (mem_deleteA nu lam t1 (Suc i) (twed_rec nu lam t1 t2 i (Suc j)))
          (mem_deleteB nu lam t2 (Suc j) (twed_rec nu lam t1 t2 (Suc i) j))
          (mem_match nu t1 t2 (Suc i) (Suc j) (twed_rec nu lam t1 t2 i j))"

text \<open>
  Two calls compared: both raise the same exception, or both return and the first
  cost is at most the second.
\<close>

fun le_result :: "error + cost \<Rightarrow> error + cost \<Rightarrow> bool" where
  "le_result (Inr a) (Inr b) = lec a b"
| "le_result (Inl e) (Inl e') = (e = e')"
| "le_result (Inl e) (Inr b) = False"
| "le_result (Inr a) (Inl e') = False"




section \<open>Evaluation and basic facts\<close>

lemma bindE_simps [simp]: "bindE (Inl e) f = Inl e" "bindE (Inr v) f = f v"
  by (simp_all add: bindE_def)

lemmas arr_eval = zeros_def get2_def set2_def get2_py_def py_index_def min3_def upt_rec Let_def
  eval_nat_numeral

lemmas twed_eval = TWED_def TWED_init_def TWED_calculateCosts_def TWED_init_matrix_def
  TWED_sweep_def TWED_body_def TWED_deleteA_def TWED_deleteB_def TWED_match_def arange1_def

lemmas mem_eval = memTWED_def memTWED_init_def memTWED_calculateCosts_def
  memTWED_calculateCosts'_def memTWED_init_matrix_def mem_outer_def mem_body_def
  mem_deleteA_def mem_deleteB_def mem_match_def

lemmas multi_eval = multiTWED_def multiTWED_init_def multiTWED_calculateCosts_def
  multiTWED_init_matrix_def multi_outer_def multi_body_def multi_deleteA_def multi_deleteB_def
  multi_match_def stack_min_def get_col_def set_col_def t2_col_def shape_dims_def ncols_def


section \<open>Parameter validation\<close>

text \<open>
  C6: in each of the three engines the constructor raises the assertion on \<open>_nu\<close>
  exactly when \<open>nu < 0\<close>, and then the whole call ends with that error: no buffer is
  allocated and no cell is computed.
\<close>

theorem nu_validation:
  "(TWED_init t1 t2 lam nu = Inl (AssertionError NuNegative)) = (nu < 0)
   \<and> (memTWED_init t1 t2 lam nu strict = Inl (AssertionError NuNegative)) = (nu < 0)
   \<and> (multiTWED_init t1 b lam nu = Inl (AssertionError NuNegative)) = (nu < 0)
   \<and> (nu < 0 \<longrightarrow> TWED t1 t2 lam nu = Inl (AssertionError NuNegative)
                \<and> memTWED t1 t2 lam nu strict = Inl (AssertionError NuNegative)
                \<and> multiTWED t1 b lam nu = Inl (AssertionError NuNegative))"
  by (auto simp: TWED_def TWED_init_def memTWED_def memTWED_init_def multiTWED_def
        multiTWED_init_def Let_def)

theorem nu_validation_witness:
  "TWED [10, 20] [15, 25] (1/1000) (- 1/10) = Inl (AssertionError NuNegative)
   \<and> memTWED [10, 20] [15, 25] (1/1000) (- 1/10) False = Inl (AssertionError NuNegative)
   \<and> multiTWED [10, 20] [[15, 25]] (1/1000) (- 1/10) = Inl (AssertionError NuNegative)
   \<and> TWED_init [10, 20] [15, 25] (1/1000) (1/2) \<noteq> Inl (AssertionError NuNegative)"
  using nu_validation [of "[10, 20]" "[15, 25]" "1/1000" "- 1/10" False "[[15, 25]]"]
    nu_validation [of "[10, 20]" "[15, 25]" "1/1000" "1/2" False "[[15, 25]]"]
  by simp


section \<open>Inputs on which the engines leave the recurrence\<close>

text \<open>
  C5: \<open>TWED._init_matrix\<close> on a 2-by-3 matrix leaves the cell (0, 2) of row 0 at 0,
  and on a 3-by-2 matrix it raises IndexError at \<open>matrix[0][2]\<close>.
\<close>

theorem TWED_init_matrix_not_square:
  "TWED_init_matrix 2 3 = Inr [[Fin 0, PInf, Fin 0], [PInf, Fin 0, Fin 0]]
   \<and> TWED_init_matrix 3 2 = Inl IndexError"
  by (simp add: twed_eval arr_eval)





section \<open>Construction of the batch engine\<close>

text \<open>
  C4, as the claim states it, fails: a batch whose only row has length 3 is accepted
  for a reference series of length 2, and the call returns a cost computed from the
  first two samples of the row.
\<close>

theorem multiTWED_accepts_longer_rows:
  "multiTWED_init [1, 2] [[1, 2, 3]] (1/1000) (1/2) =
     Inr \<lparr>mu_t1 = [1, 2], mu_t2 = [[1, 2, 3]], mu_lambda = 1/1000, mu_nu = 1/2,
          mu_n = 2, mu_m = 2, mu_numSeries = 1\<rparr>
   \<and> multiTWED [1, 2] [[1, 2, 3]] (1/1000) (1/2) = Inr [Fin 0]"
  by (simp add: multi_eval arr_eval)

section \<open>Loops as folds\<close>

lemma foldE_append: "foldE f (xs @ ys) s = bindE (foldE f xs s) (foldE f ys)"
  by (induction xs arbitrary: s) (auto split: sum.splits)

lemma foldE_snoc: "foldE f (xs @ [x]) s = bindE (foldE f xs s) (f x)"
proof (induction xs arbitrary: s)
  case Nil
  show ?case by (cases "f x s") simp_all
next
  case (Cons y ys)
  show ?case by (cases "f y s") (simp_all add: Cons.IH)
qed

lemma foldE_upt_inv:
  assumes "a \<le> b" and "I a s"
    and step: "\<And>i s. a \<le> i \<Longrightarrow> i < b \<Longrightarrow> I i s \<Longrightarrow> \<exists>s'. f i s = Inr s' \<and> I (Suc i) s'"
  shows "\<exists>s'. foldE f [a..<b] s = Inr s' \<and> I b s'"
  using assms(1) step
proof (induction b rule: dec_induct)
  case base
  show ?case using \<open>I a s\<close> by simp
next
  case (step k)
  have "\<exists>s'. foldE f [a..<k] s = Inr s' \<and> I k s'"
    by (rule step.IH) (use step.prems in auto)
  then obtain s' where s': "foldE f [a..<k] s = Inr s'" "I k s'" by blast
  from step.prems [of k s'] step.hyps s' obtain s'' where "f k s' = Inr s''" "I (Suc k) s''"
    by auto
  with s' step.hyps show ?case by (simp add: foldE_snoc)
qed


lemma foldE_rel:
  assumes "R s t"
    and "\<And>x s t. x \<in> set xs \<Longrightarrow> R s t \<Longrightarrow> rel_sum (=) R (f x s) (g x t)"
  shows "rel_sum (=) R (foldE f xs s) (foldE g xs t)"
  using assms
proof (induction xs arbitrary: s t)
  case Nil
  then show ?case by simp
next
  case (Cons x xs)
  have r: "rel_sum (=) R (f x s) (g x t)" using Cons.prems by simp
  show ?case
  proof (cases "f x s")
    case (Inl e)
    with r show ?thesis by (cases "g x t") simp_all
  next
    case (Inr s')
    with r obtain t' where t': "g x t = Inr t'" "R s' t'" by (cases "g x t") simp_all
    have "rel_sum (=) R (foldE f xs s') (foldE g xs t')"
      by (rule Cons.IH [OF t'(2)]) (use Cons.prems(2) in simp)
    with Inr t' show ?thesis by simp
  qed
qed

lemma min3_swap: "min3 a b c = min3 b a c"
  by (cases a; cases b; cases c) (auto simp: min3_def)

lemma mem_deleteA_B: "mem_deleteA nu lam t i c = mem_deleteB nu lam t i c"
  by (simp add: mem_deleteA_def mem_deleteB_def)

lemma mem_match_sym: "mem_match nu t1 t2 i j c = mem_match nu t2 t1 j i c"
  by (simp add: mem_match_def abs_minus_commute)

lemma twed_rec_sym: "twed_rec nu lam t1 t2 i j = twed_rec nu lam t2 t1 j i"
proof (induction nu lam t1 t2 i j rule: twed_rec.induct)
  case (4 nu lam t1 t2 i j)
  then show ?case
    using min3_swap [of "mem_deleteA nu lam t1 (Suc i) (twed_rec nu lam t2 t1 (Suc j) i)"]
    by (simp add: mem_deleteA_B mem_match_sym [of nu t1 t2])
qed simp_all

lemma twed_rec_col0: "0 < i \<Longrightarrow> twed_rec nu lam t1 t2 i 0 = PInf"
  by (cases i) simp_all

lemma twed_rec_row0: "0 < j \<Longrightarrow> twed_rec nu lam t1 t2 0 j = PInf"
  by (cases j) simp_all

lemma twed_rec_step:
  "0 < i \<Longrightarrow> 0 < j \<Longrightarrow> twed_rec nu lam t1 t2 i j =
     min3 (mem_deleteA nu lam t1 i (twed_rec nu lam t1 t2 (i - 1) j))
          (mem_deleteB nu lam t2 j (twed_rec nu lam t1 t2 i (j - 1)))
          (mem_match nu t1 t2 i j (twed_rec nu lam t1 t2 (i - 1) (j - 1)))"
  by (cases i; cases j) simp_all

lemma TWED_mem_candidates:
  assumes "0 < i" "0 < j"
  shows "TWED_deleteA nu lam t1 i c = mem_deleteA nu lam t1 i c"
    and "TWED_deleteB nu lam t2 j c = mem_deleteB nu lam t2 j c"
    and "TWED_match nu t1 t2 i j c = mem_match nu t1 t2 i j c"
proof -
  have i: "int (i - 1) = int i - 1" and j: "int (j - 1) = int j - 1"
    using assms by simp_all
  show "TWED_deleteA nu lam t1 i c = mem_deleteA nu lam t1 i c"
    unfolding TWED_deleteA_def mem_deleteA_def arange1_def i by simp
  show "TWED_deleteB nu lam t2 j c = mem_deleteB nu lam t2 j c"
    unfolding TWED_deleteB_def mem_deleteB_def arange1_def j by simp
  show "TWED_match nu t1 t2 i j c = mem_match nu t1 t2 i j c"
    unfolding TWED_match_def mem_match_def arange1_def i j by simp
qed


section \<open>The rolling buffer computes the recurrence\<close>

lemma rows_length:
  assumes "length M = 2" "length (M ! 0) = n" "length (M ! 1) = n" "r < 2"
  shows "length (M ! r) = n"
  using assms less_2_cases [of r] by auto

lemma length_row_update [simp]: "length (M[a := (M ! a)[b := v]] ! r) = length (M ! r)"
proof (cases "a = r \<and> a < length M")
  case True
  then show ?thesis by simp
next
  case False
  then show ?thesis by (cases "a = r") (simp_all add: list_update_beyond)
qed

lemma mem_body_step:
  assumes shape: "length M = 2" "length (M ! 0) = n" "length (M ! 1) = n"
    and idx: "mi < 2" "ai < 2" "0 < j" "j < n"
  shows "mem_body nu lam t1 t2 i mi ai j M =
     Inr (M[mi := (M ! mi)[j := min3 (mem_deleteA nu lam t1 i (M ! ai ! j))
                                     (mem_deleteB nu lam t2 j (M ! mi ! (j - 1)))
                                     (mem_match nu t1 t2 i j (M ! ai ! (j - 1)))]])"
proof -
  have "length (M ! mi) = n" "length (M ! ai) = n"
    using rows_length [OF shape] idx by auto
  then show ?thesis
    using shape(1) idx by (simp add: mem_body_def get2_def set2_def)
qed

lemma mem_inner:
  assumes shape: "length M = 2" "length (M ! 0) = n" "length (M ! 1) = n"
    and idx: "mi < 2" "ai < 2" "mi \<noteq> ai" "0 < i" "1 \<le> m" "m \<le> n"
    and prev: "\<forall>j<m. M ! ai ! j = twed_rec nu lam t1 t2 (i - 1) j"
    and col0: "M ! mi ! 0 = PInf"
  shows "\<exists>M'. foldE (\<lambda>j M. mem_body nu lam t1 t2 i mi ai j M) [1..<m] M = Inr M'
           \<and> length M' = 2 \<and> length (M' ! 0) = n \<and> length (M' ! 1) = n
           \<and> M' ! ai = M ! ai
           \<and> (\<forall>j<m. M' ! mi ! j = twed_rec nu lam t1 t2 i j)"
proof -
  let ?I = "\<lambda>j M'. length M' = 2 \<and> length (M' ! 0) = n \<and> length (M' ! 1) = n
              \<and> M' ! ai = M ! ai \<and> (\<forall>j'<j. M' ! mi ! j' = twed_rec nu lam t1 t2 i j')"
  have init: "?I 1 M"
    using shape col0 idx by (simp add: twed_rec_col0)
  have step: "\<exists>s'. mem_body nu lam t1 t2 i mi ai j s = Inr s' \<and> ?I (Suc j) s'"
    if "1 \<le> j" "j < m" "?I j s" for j s
  proof -
    from that have s: "length s = 2" "length (s ! 0) = n" "length (s ! 1) = n"
      and sa: "s ! ai = M ! ai"
      and sm: "\<forall>j'<j. s ! mi ! j' = twed_rec nu lam t1 t2 i j'" by auto
    have jn: "0 < j" "j < n" using that idx by auto
    let ?v = "min3 (mem_deleteA nu lam t1 i (s ! ai ! j))
                   (mem_deleteB nu lam t2 j (s ! mi ! (j - 1)))
                   (mem_match nu t1 t2 i j (s ! ai ! (j - 1)))"
    let ?s' = "s[mi := (s ! mi)[j := ?v]]"
    have body: "mem_body nu lam t1 t2 i mi ai j s = Inr ?s'"
      by (rule mem_body_step [OF s idx(1,2) jn])
    have lm: "length (s ! mi) = n" using rows_length [OF s idx(1)] .
    have up: "s ! ai ! j = twed_rec nu lam t1 t2 (i - 1) j"
      and diag: "s ! ai ! (j - 1) = twed_rec nu lam t1 t2 (i - 1) (j - 1)"
      using sa prev that by auto
    have left: "s ! mi ! (j - 1) = twed_rec nu lam t1 t2 i (j - 1)"
      using sm jn by simp
    have v: "?v = twed_rec nu lam t1 t2 i j"
      unfolding up diag left using twed_rec_step [OF idx(4) jn(1)] by simp
    have row: "?s' ! mi = (s ! mi)[j := ?v]" using s(1) idx(1) by simp
    have other: "?s' ! ai = s ! ai" using idx(3) by simp
    have len: "length ?s' = 2" "length (?s' ! 0) = n" "length (?s' ! 1) = n"
      using s by simp_all
    have cells: "\<forall>j'<Suc j. ?s' ! mi ! j' = twed_rec nu lam t1 t2 i j'"
      unfolding row using sm v lm jn by (auto simp: nth_list_update less_Suc_eq)
    show ?thesis using body len other sa cells by simp
  qed
  have "\<exists>s'. foldE (\<lambda>j M. mem_body nu lam t1 t2 i mi ai j M) [1..<m] M = Inr s' \<and> ?I m s'"
    by (rule foldE_upt_inv [where I = ?I, OF idx(5) init step])
  then show ?thesis by blast
qed

lemma mem_init_matrix_ok:
  "0 < n \<Longrightarrow> memTWED_init_matrix n =
     Inr [(replicate n PInf)[0 := Fin 0], (replicate n (Fin 0))[0 := PInf]]"
  by (simp add: memTWED_init_matrix_def zeros_def set2_def Let_def numeral_2_eq_2)

lemma parity_rows:
  "i mod 2 < 2" "nat \<bar>int (i mod 2) - 1\<bar> = Suc i mod 2" "Suc i mod 2 < 2"
  "i mod 2 \<noteq> Suc i mod 2" "1 \<le> i \<Longrightarrow> (i - 1) mod 2 = Suc i mod 2"
proof -
  show "i mod 2 < 2" by simp
  show "Suc i mod 2 < 2" by simp
  show "i mod 2 \<noteq> Suc i mod 2" by presburger
  show "(i - 1) mod 2 = Suc i mod 2" if "1 \<le> i"
  proof -
    from that obtain k where "i = Suc k" by (cases i) simp_all
    then show ?thesis by simp
  qed
  have "i mod 2 = 0 \<and> Suc i mod 2 = 1 \<or> i mod 2 = 1 \<and> Suc i mod 2 = 0" by presburger
  then show "nat \<bar>int (i mod 2) - 1\<bar> = Suc i mod 2" by auto
qed

lemma mem_outer_step:
  assumes shape: "length M = 2" "length (M ! 0) = n" "length (M ! 1) = n"
    and idx: "1 \<le> i" "i < n" "1 \<le> m" "m \<le> n"
    and prev: "\<forall>j<m. M ! ((i - 1) mod 2) ! j = twed_rec nu lam t1 t2 (i - 1) j"
    and col0: "M ! (i mod 2) ! 0 = PInf"
  shows "\<exists>M'. mem_outer nu lam t1 t2 m i (M, mo) = Inr (M', Some (i mod 2))
           \<and> length M' = 2 \<and> length (M' ! 0) = n \<and> length (M' ! 1) = n
           \<and> (\<forall>j<m. M' ! (i mod 2) ! j = twed_rec nu lam t1 t2 i j)
           \<and> M' ! (Suc i mod 2) ! 0 = PInf"
proof -
  let ?mi = "i mod 2" and ?ai = "Suc i mod 2"
  have ai: "(i - 1) mod 2 = ?ai" using parity_rows(5) idx(1) .
  have i0: "0 < i" using idx by simp
  from mem_inner [OF shape parity_rows(1) parity_rows(3) parity_rows(4) i0 idx(3,4)
      prev [unfolded ai] col0]
  obtain M1 where M1: "foldE (\<lambda>j M. mem_body nu lam t1 t2 i ?mi ?ai j M) [1..<m] M = Inr M1"
    and s1: "length M1 = 2" "length (M1 ! 0) = n" "length (M1 ! 1) = n"
    and keep: "M1 ! ?ai = M ! ?ai"
    and cur: "\<forall>j<m. M1 ! ?mi ! j = twed_rec nu lam t1 t2 i j" by blast
  let ?M' = "M1[0 := (M1 ! 0)[0 := PInf]]"
  have n0: "0 < n" using idx by simp
  have wr: "set2 M1 0 0 PInf = Inr ?M'"
    using s1 n0 by (simp add: set2_def)
  have run: "mem_outer nu lam t1 t2 m i (M, mo) = Inr (?M', Some ?mi)"
    unfolding mem_outer_def Let_def parity_rows(2) fst_conv M1 bindE_simps wr ..
  have len: "length ?M' = 2" "length (?M' ! 0) = n" "length (?M' ! 1) = n"
    using s1 by simp_all
  have r0: "?M' ! 0 = (M1 ! 0)[0 := PInf]" and r1: "?M' ! 1 = M1 ! 1"
    using s1 by simp_all
  have cells: "\<forall>j<m. ?M' ! ?mi ! j = twed_rec nu lam t1 t2 i j"
  proof (cases "?mi = 0")
    case True
    show ?thesis
      unfolding True r0 using cur [unfolded True] s1(2) n0 i0
      by (auto simp: nth_list_update twed_rec_col0)
  next
    case False
    then have "?mi = 1" by presburger
    then show ?thesis using cur r1 by simp
  qed
  have next0: "?M' ! ?ai ! 0 = PInf"
  proof (cases "?ai = 0")
    case True
    show ?thesis unfolding True r0 using s1(2) n0 by simp
  next
    case False
    then have a1: "?ai = 1" by presburger
    then have "0 < i - 1" using ai by (cases "i - 1") simp_all
    moreover have "M ! ?ai ! 0 = twed_rec nu lam t1 t2 (i - 1) 0"
      using prev idx(3) ai by simp
    ultimately show ?thesis using a1 r1 keep by (simp add: twed_rec_col0)
  qed
  show ?thesis using run len cells next0 by blast
qed

lemma mem_outer_loop:
  assumes "1 \<le> b" "b \<le> n" "1 \<le> m" "m \<le> n"
  shows "\<exists>M mo. foldE (mem_outer nu lam t1 t2 m) [1..<b]
             ([(replicate n PInf)[0 := Fin 0], (replicate n (Fin 0))[0 := PInf]], None)
           = Inr (M, mo)
         \<and> length M = 2 \<and> length (M ! 0) = n \<and> length (M ! 1) = n
         \<and> (\<forall>j<m. M ! ((b - 1) mod 2) ! j = twed_rec nu lam t1 t2 (b - 1) j)
         \<and> M ! (b mod 2) ! 0 = PInf
         \<and> mo = (if b = 1 then None else Some ((b - 1) mod 2))"
proof -
  let ?M0 = "[(replicate n PInf)[0 := Fin 0], (replicate n (Fin 0))[0 := PInf]]"
  let ?I = "\<lambda>b st. length (fst st) = 2 \<and> length (fst st ! 0) = n \<and> length (fst st ! 1) = n
         \<and> (\<forall>j<m. fst st ! ((b - 1) mod 2) ! j = twed_rec nu lam t1 t2 (b - 1) j)
         \<and> fst st ! (b mod 2) ! 0 = PInf
         \<and> snd st = (if b = 1 then None else Some ((b - 1) mod 2))"
  have n0: "0 < n" using assms by simp
  have row0: "?M0 ! 0 ! j = twed_rec nu lam t1 t2 0 j" if "j < m" for j
    using that assms(4) by (cases j) (simp_all add: nth_list_update)
  have init: "?I 1 (?M0, None)"
    using n0 row0 by simp
  have step: "\<exists>s'. mem_outer nu lam t1 t2 m i s = Inr s' \<and> ?I (Suc i) s'"
    if "1 \<le> i" "i < b" "?I i s" for i s
  proof -
    obtain M mo where s: "s = (M, mo)" by (cases s)
    from that s have sh: "length M = 2" "length (M ! 0) = n" "length (M ! 1) = n"
      and prev: "\<forall>j<m. M ! ((i - 1) mod 2) ! j = twed_rec nu lam t1 t2 (i - 1) j"
      and c0: "M ! (i mod 2) ! 0 = PInf" by auto
    have "i < n" using that assms by simp
    from mem_outer_step [OF sh that(1) this assms(3,4) prev c0, of mo]
    obtain M' where "mem_outer nu lam t1 t2 m i (M, mo) = Inr (M', Some (i mod 2))"
      "length M' = 2" "length (M' ! 0) = n" "length (M' ! 1) = n"
      "\<forall>j<m. M' ! (i mod 2) ! j = twed_rec nu lam t1 t2 i j"
      "M' ! (Suc i mod 2) ! 0 = PInf" by blast
    then show ?thesis using s that(1) by simp
  qed
  have "\<exists>s'. foldE (mem_outer nu lam t1 t2 m) [1..<b] (?M0, None) = Inr s' \<and> ?I b s'"
    by (rule foldE_upt_inv [where I = ?I, OF assms(1) init step])
  then show ?thesis by auto
qed

lemma memTWED_calculateCosts_rec:
  assumes "2 \<le> mt_n self" "1 \<le> mt_m self" "mt_m self \<le> mt_n self"
  shows "memTWED_calculateCosts self =
     Inr (twed_rec (mt_nu self) (mt_lambda self) (mt_t1 self) (mt_t2 self)
            (mt_n self - 1) (mt_m self - 1))"
proof -
  let ?n = "mt_n self" and ?m = "mt_m self"
  have n: "1 \<le> ?n" "?n \<le> ?n" "0 < ?n" using assms by simp_all
  from mem_outer_loop [OF n(1,2) assms(2,3), of "mt_nu self" "mt_lambda self" "mt_t1 self" "mt_t2 self"]
  obtain M mo where run: "foldE (mem_outer (mt_nu self) (mt_lambda self) (mt_t1 self) (mt_t2 self) ?m)
        [1..<?n] ([(replicate ?n PInf)[0 := Fin 0], (replicate ?n (Fin 0))[0 := PInf]], None)
        = Inr (M, mo)"
    and sh: "length M = 2" "length (M ! 0) = ?n" "length (M ! 1) = ?n"
    and cells: "\<forall>j<?m. M ! ((?n - 1) mod 2) ! j =
        twed_rec (mt_nu self) (mt_lambda self) (mt_t1 self) (mt_t2 self) (?n - 1) j"
    and mo: "mo = (if ?n = 1 then None else Some ((?n - 1) mod 2))" by blast
  have mo': "mo = Some ((?n - 1) mod 2)" using mo assms(1) by simp
  have lr: "length (M ! ((?n - 1) mod 2)) = ?n"
    by (rule rows_length [OF sh]) simp
  have idx: "py_index 2 (int ((?n - 1) mod 2)) = Inr ((?n - 1) mod 2)"
    by (simp add: py_index_def)
  have idx2: "py_index ?n (int ?m - 1) = Inr (?m - 1)"
    using assms by (auto simp: py_index_def)
  have "get2_py M (int ((?n - 1) mod 2)) (int ?m - 1) = Inr (M ! ((?n - 1) mod 2) ! (?m - 1))"
    unfolding get2_py_def sh(1) idx bindE_simps lr idx2 ..
  then show ?thesis
    using run mo' cells assms(2)
    by (simp add: memTWED_calculateCosts_def memTWED_calculateCosts'_def mem_init_matrix_ok [OF n(3)])
qed

lemma memTWED_rec:
  assumes "2 \<le> length t1" "1 \<le> length t2" "length t2 \<le> length t1" "0 \<le> nu"
    and "strict \<longrightarrow> length t1 = length t2"
  shows "memTWED t1 t2 lam nu strict =
     Inr (twed_rec nu lam t1 t2 (length t1 - 1) (length t2 - 1))"
proof -
  let ?self = "\<lparr>mt_t1 = t1, mt_t2 = t2, mt_lambda = lam, mt_nu = nu,
                        mt_n = length t1, mt_m = length t2\<rparr>"
  have "\<exists>w. memTWED_init t1 t2 lam nu strict = Inr (?self, w)"
    using assms(4,5) by (simp add: memTWED_init_def Let_def)
  then obtain w where "memTWED_init t1 t2 lam nu strict = Inr (?self, w)" ..
  moreover have "memTWED_calculateCosts ?self =
      Inr (twed_rec nu lam t1 t2 (length t1 - 1) (length t2 - 1))"
    using memTWED_calculateCosts_rec [of ?self] assms(1-3) by simp
  ultimately show ?thesis by (simp add: memTWED_def)
qed


section \<open>Symmetry\<close>

lemma memTWED_negative_nu: "\<not> 0 \<le> nu \<Longrightarrow> memTWED t1 t2 lam nu strict = Inl (AssertionError NuNegative)"
  by (simp add: memTWED_def memTWED_init_def)

lemma memTWED_init_ok:
  assumes "0 \<le> nu" "strict \<longrightarrow> length t1 = length t2"
  shows "\<exists>w. memTWED_init t1 t2 lam nu strict =
     Inr (\<lparr>mt_t1 = t1, mt_t2 = t2, mt_lambda = lam, mt_nu = nu,
           mt_n = length t1, mt_m = length t2\<rparr>, w)"
  using assms by (simp add: memTWED_init_def Let_def)

lemma memTWED_length_one:
  assumes "length t1 = 1" "0 \<le> nu" "strict \<longrightarrow> length t1 = length t2"
  shows "memTWED t1 t2 lam nu strict = Inl UnboundLocalError"
proof -
  from memTWED_init_ok [OF assms(2,3)] obtain w where
    "memTWED_init t1 t2 lam nu strict =
     Inr (\<lparr>mt_t1 = t1, mt_t2 = t2, mt_lambda = lam, mt_nu = nu,
           mt_n = length t1, mt_m = length t2\<rparr>, w)" ..
  then show ?thesis
    using assms(1)
    by (simp add: memTWED_def memTWED_calculateCosts_def memTWED_calculateCosts'_def
        mem_init_matrix_ok)
qed

lemma memTWED_length_zero:
  assumes "length t1 = 0" "0 \<le> nu" "strict \<longrightarrow> length t1 = length t2"
  shows "memTWED t1 t2 lam nu strict = Inl IndexError"
proof -
  from memTWED_init_ok [OF assms(2,3)] obtain w where
    "memTWED_init t1 t2 lam nu strict =
     Inr (\<lparr>mt_t1 = t1, mt_t2 = t2, mt_lambda = lam, mt_nu = nu,
           mt_n = length t1, mt_m = length t2\<rparr>, w)" ..
  then show ?thesis
    using assms(1)
    by (simp add: memTWED_def memTWED_calculateCosts_def memTWED_init_matrix_def Let_def)
qed

text \<open>
  C7: for series of equal length the rolling-buffer engine gives the same result
  whichever series is the reference: the same cost, or (for lengths 0 and 1, or
  \<open>nu < 0\<close>) the same exception. From length 2 on, with \<open>nu \<ge> 0\<close>, the result is a
  cost.
\<close>

theorem memTWED_symmetric:
  assumes "length A = length B"
  shows "memTWED A B lam nu strict = memTWED B A lam nu strict
    \<and> (2 \<le> length A \<and> 0 \<le> nu \<longrightarrow> (\<exists>c. memTWED A B lam nu strict = Inr c))"
proof (cases "0 \<le> nu")
  case False
  then show ?thesis by (simp add: memTWED_negative_nu)
next
  case True
  have st: "strict \<longrightarrow> length A = length B" "strict \<longrightarrow> length B = length A"
    using assms by simp_all
  consider "length A = 0" | "length A = 1" | "2 \<le> length A" by linarith
  then show ?thesis
  proof cases
    case 1
    then show ?thesis
      using memTWED_length_zero [OF _ True st(1)] memTWED_length_zero [OF _ True st(2)] assms
      by simp
  next
    case 2
    then show ?thesis
      using memTWED_length_one [OF _ True st(1)] memTWED_length_one [OF _ True st(2)] assms
      by simp
  next
    case 3
    have ab: "memTWED A B lam nu strict =
        Inr (twed_rec nu lam A B (length A - 1) (length B - 1))"
      by (rule memTWED_rec) (use 3 assms True in simp_all)
    have ba: "memTWED B A lam nu strict =
        Inr (twed_rec nu lam B A (length B - 1) (length A - 1))"
      by (rule memTWED_rec) (use 3 assms True in simp_all)
    show ?thesis
      unfolding ab ba using twed_rec_sym [of nu lam A B] by simp
  qed
qed

theorem memTWED_symmetric_witness:
  "memTWED [1, 2, 4] [3, 1, 5] (1/1000) (1/2) False
     = memTWED [3, 1, 5] [1, 2, 4] (1/1000) (1/2) False
   \<and> memTWED [3, 1, 5] [1, 2, 4] (1/1000) (1/2) False = Inr (Fin 5)"
proof -
  have "memTWED [3, 1, 5] [1, 2, 4] (1/1000) (1/2) False = Inr (Fin 5)"
    by (simp add: mem_eval arr_eval)
  then show ?thesis
    using memTWED_symmetric [of "[1, 2, 4]" "[3, 1, 5]" "1/1000" "1/2" False] by simp
qed



section \<open>The sentinel column of the rolling buffer\<close>

lemma nth_row_update_col0 [simp]: "j \<noteq> 0 \<Longrightarrow> M[a := (M ! a)[j := v]] ! r ! 0 = M ! r ! 0"
proof (cases "a = r \<and> a < length M")
  case True
  then show "j \<noteq> 0 \<Longrightarrow> ?thesis" by simp
next
  case False
  then show ?thesis by (cases "a = r") (simp_all add: list_update_beyond)
qed









section \<open>Monotonicity in the deletion penalty\<close>

lemma le_result_iff: "le_result a b = rel_sum (=) lec a b"
  by (cases a; cases b) simp_all

lemma lec_refl [simp]: "lec c c"
  by (cases c) simp_all

lemma addc_mono: "lec c d \<Longrightarrow> x \<le> y \<Longrightarrow> lec (addc c x) (addc d y)"
  by (cases c; cases d) simp_all

lemma min3_mono:
  "lec a a' \<Longrightarrow> lec b b' \<Longrightarrow> lec c c' \<Longrightarrow> lec (min3 a b c) (min3 a' b' c')"
  by (cases a; cases a'; cases b; cases b'; cases c; cases c') (simp_all add: min3_def)

lemma bindE_rel:
  assumes "rel_sum (=) R a b" and "\<And>x y. R x y \<Longrightarrow> rel_sum (=) S (f x) (g y)"
  shows "rel_sum (=) S (bindE a f) (bindE b g)"
  using assms by (cases a; cases b) simp_all

lemma get2_rel:
  assumes "list_all2 (list_all2 lec) M N"
  shows "rel_sum (=) lec (get2 M i j) (get2 N i j)"
proof -
  have len: "length M = length N" using assms by (rule list_all2_lengthD)
  show ?thesis
  proof (cases "i < length M")
    case True
    then have row: "list_all2 lec (M ! i) (N ! i)" using assms by (simp add: list_all2_nthD)
    then have "length (M ! i) = length (N ! i)" by (rule list_all2_lengthD)
    moreover have "lec (M ! i ! j) (N ! i ! j)" if "j < length (M ! i)"
      using row that by (simp add: list_all2_nthD)
    ultimately show ?thesis using True len by (simp add: get2_def)
  next
    case False
    then show ?thesis using len by (simp add: get2_def)
  qed
qed

lemma set2_rel:
  assumes "list_all2 (list_all2 lec) M N" and "lec v w"
  shows "rel_sum (=) (list_all2 (list_all2 lec)) (set2 M i j v) (set2 N i j w)"
proof -
  have len: "length M = length N" using assms(1) by (rule list_all2_lengthD)
  show ?thesis
  proof (cases "i < length M")
    case True
    then have row: "list_all2 lec (M ! i) (N ! i)" using assms(1) by (simp add: list_all2_nthD)
    then have rl: "length (M ! i) = length (N ! i)" by (rule list_all2_lengthD)
    have "list_all2 lec ((M ! i)[j := v]) ((N ! i)[j := w])"
      using row assms(2) by (rule list_all2_update_cong)
    then have "list_all2 (list_all2 lec) (M[i := (M ! i)[j := v]]) (N[i := (N ! i)[j := w]])"
      using assms(1) by (simp add: list_all2_update_cong)
    then show ?thesis using True len rl by (simp add: set2_def)
  next
    case False
    then show ?thesis using len by (simp add: set2_def)
  qed
qed

lemma py_index_less: "py_index len a = Inr r \<Longrightarrow> r < len"
  by (auto simp: py_index_def split: if_splits)

lemma get2_py_rel:
  assumes "list_all2 (list_all2 lec) M N"
  shows "rel_sum (=) lec (get2_py M a b) (get2_py N a b)"
proof -
  have len: "length M = length N" using assms by (rule list_all2_lengthD)
  show ?thesis
  proof (cases "py_index (length M) a")
    case (Inl e)
    then show ?thesis using len by (simp add: get2_py_def)
  next
    case (Inr r)
    then have r: "r < length M" by (rule py_index_less)
    then have row: "list_all2 lec (M ! r) (N ! r)" using assms by (simp add: list_all2_nthD)
    then have rl: "length (M ! r) = length (N ! r)" by (rule list_all2_lengthD)
    show ?thesis
    proof (cases "py_index (length (M ! r)) b")
      case (Inl e)
      with Inr len rl show ?thesis by (simp add: get2_py_def)
    next
      case c: (Inr c)
      then have "c < length (M ! r)" by (rule py_index_less)
      then have "lec (M ! r ! c) (N ! r ! c)" using row by (simp add: list_all2_nthD)
      with Inr c len rl show ?thesis by (simp add: get2_py_def)
    qed
  qed
qed

lemma TWED_body_mono:
  assumes "lam1 \<le> lam2" "list_all2 (list_all2 lec) M N"
  shows "rel_sum (=) (list_all2 (list_all2 lec))
     (TWED_body nu lam1 t1 t2 i j M) (TWED_body nu lam2 t1 t2 i j N)"
  unfolding TWED_body_def
proof (intro bindE_rel [where R = lec] get2_rel assms(2) set2_rel min3_mono)
  fix up up' :: cost and left left' :: cost and diag diag' :: cost
  assume "lec up up'" "lec left left'" "lec diag diag'"
  then show "lec (TWED_deleteA nu lam1 t1 i up) (TWED_deleteA nu lam2 t1 i up')"
    "lec (TWED_deleteB nu lam1 t2 j left) (TWED_deleteB nu lam2 t2 j left')"
    "lec (TWED_match nu t1 t2 i j diag) (TWED_match nu t1 t2 i j diag')"
    using assms(1)
    by (simp_all add: TWED_deleteA_def TWED_deleteB_def TWED_match_def addc_mono)
qed

lemma mem_body_mono:
  assumes "lam1 \<le> lam2" "list_all2 (list_all2 lec) M N"
  shows "rel_sum (=) (list_all2 (list_all2 lec))
     (mem_body nu lam1 t1 t2 i mi ai j M) (mem_body nu lam2 t1 t2 i mi ai j N)"
  unfolding mem_body_def
proof (intro bindE_rel [where R = lec] get2_rel assms(2) set2_rel min3_mono)
  fix up up' :: cost and left left' :: cost and diag diag' :: cost
  assume "lec up up'" "lec left left'" "lec diag diag'"
  then show "lec (mem_deleteA nu lam1 t1 i up) (mem_deleteA nu lam2 t1 i up')"
    "lec (mem_deleteB nu lam1 t2 j left) (mem_deleteB nu lam2 t2 j left')"
    "lec (mem_match nu t1 t2 i j diag) (mem_match nu t1 t2 i j diag')"
    using assms(1)
    by (simp_all add: mem_deleteA_def mem_deleteB_def mem_match_def addc_mono)
qed

lemma matrix_le_refl: "list_all2 (list_all2 lec) M M"
  by (simp add: list_all2_refl)

lemma TWED_sweep_mono:
  assumes "lam1 \<le> lam2" "list_all2 (list_all2 lec) M N"
  shows "rel_sum (=) (list_all2 (list_all2 lec))
     (TWED_sweep nu lam1 t1 t2 n m M) (TWED_sweep nu lam2 t1 t2 n m N)"
  unfolding TWED_sweep_def
  by (intro foldE_rel [where R = "list_all2 (list_all2 lec)"] assms(2) TWED_body_mono assms(1))

lemma TWED_calculateCosts_mono:
  assumes "lam1 \<le> lam2"
  shows "rel_sum (=) lec
     (TWED_calculateCosts \<lparr>tw_t1 = t1, tw_t2 = t2, tw_lambda = lam1, tw_nu = nu, tw_n = n, tw_m = m\<rparr>)
     (TWED_calculateCosts \<lparr>tw_t1 = t1, tw_t2 = t2, tw_lambda = lam2, tw_nu = nu, tw_n = n, tw_m = m\<rparr>)"
proof (cases "TWED_init_matrix n m")
  case (Inl e)
  then show ?thesis by (simp add: TWED_calculateCosts_def)
next
  case (Inr M)
  have "rel_sum (=) lec
      (bindE (TWED_sweep nu lam1 t1 t2 n m M) (\<lambda>matrix. get2_py matrix (int n - 1) (int m - 1)))
      (bindE (TWED_sweep nu lam2 t1 t2 n m M) (\<lambda>matrix. get2_py matrix (int n - 1) (int m - 1)))"
    by (intro bindE_rel [where R = "list_all2 (list_all2 lec)"] TWED_sweep_mono assms
        matrix_le_refl get2_py_rel)
  then show ?thesis using Inr by (simp add: TWED_calculateCosts_def)
qed

lemma mem_outer_mono:
  assumes "lam1 \<le> lam2" "list_all2 (list_all2 lec) (fst s) (fst t)" "snd s = snd t"
  shows "rel_sum (=) (\<lambda>s t. list_all2 (list_all2 lec) (fst s) (fst t) \<and> snd s = snd t)
     (mem_outer nu lam1 t1 t2 m i s) (mem_outer nu lam2 t1 t2 m i t)"
  unfolding mem_outer_def Let_def
  by (intro bindE_rel [where R = "list_all2 (list_all2 lec)"]
      foldE_rel [where R = "list_all2 (list_all2 lec)"] mem_body_mono assms(1,2) set2_rel)
    simp_all

lemma memTWED_calculateCosts_mono:
  assumes "lam1 \<le> lam2"
  shows "rel_sum (=) lec
     (memTWED_calculateCosts \<lparr>mt_t1 = t1, mt_t2 = t2, mt_lambda = lam1, mt_nu = nu, mt_n = n, mt_m = m\<rparr>)
     (memTWED_calculateCosts \<lparr>mt_t1 = t1, mt_t2 = t2, mt_lambda = lam2, mt_nu = nu, mt_n = n, mt_m = m\<rparr>)"
proof (cases "memTWED_init_matrix n")
  case (Inl e)
  then show ?thesis by (simp add: memTWED_calculateCosts_def)
next
  case (Inr M)
  let ?R = "\<lambda>s t. list_all2 (list_all2 lec) (fst s) (fst t) \<and> snd s = snd t"
  have loop: "rel_sum (=) ?R
      (foldE (mem_outer nu lam1 t1 t2 m) [1..<n] (M, None))
      (foldE (mem_outer nu lam2 t1 t2 m) [1..<n] (M, None))"
    by (rule foldE_rel [where R = ?R]) (simp_all add: matrix_le_refl mem_outer_mono assms)
  have fin: "rel_sum (=) lec
      (case snd s of None \<Rightarrow> Inl UnboundLocalError | Some mi \<Rightarrow> get2_py (fst s) (int mi) (int m - 1))
      (case snd t of None \<Rightarrow> Inl UnboundLocalError | Some mi \<Rightarrow> get2_py (fst t) (int mi) (int m - 1))"
    if "?R s t" for s t :: "cost list list \<times> nat option"
    using that get2_py_rel [of "fst s" "fst t"] by (cases "snd t") simp_all
  have "rel_sum (=) lec (memTWED_calculateCosts' M n m nu lam1 t1 t2)
      (memTWED_calculateCosts' M n m nu lam2 t1 t2)"
    unfolding memTWED_calculateCosts'_def
    by (rule bindE_rel [where R = ?R, OF loop fin])
  then show ?thesis using Inr by (simp add: memTWED_calculateCosts_def)
qed

text \<open>
  C8: with the series and \<open>nu\<close> fixed and \<open>lam1 \<le> lam2\<close>, each pairwise engine either
  raises the same exception for both penalties (the exceptions depend on the
  lengths and on \<open>nu\<close> only) or returns two costs, the one for \<open>lam1\<close> at most the
  one for \<open>lam2\<close>.
\<close>

theorem cost_monotone_in_lambda:
  assumes "lam1 \<le> lam2"
  shows "le_result (TWED t1 t2 lam1 nu) (TWED t1 t2 lam2 nu)
    \<and> le_result (memTWED t1 t2 lam1 nu strict) (memTWED t1 t2 lam2 nu strict)"
proof (cases "0 \<le> nu")
  case False
  then show ?thesis
    by (simp add: TWED_def TWED_init_def memTWED_def memTWED_init_def)
next
  case True
  have a: "le_result (TWED t1 t2 lam1 nu) (TWED t1 t2 lam2 nu)"
    using True TWED_calculateCosts_mono [OF assms, of t1 t2 nu "length t1" "length t2"]
    by (simp add: le_result_iff TWED_def TWED_init_def)
  have b: "le_result (memTWED t1 t2 lam1 nu strict) (memTWED t1 t2 lam2 nu strict)"
  proof (cases "strict \<and> length t1 \<noteq> length t2")
    case True
    then show ?thesis using \<open>0 \<le> nu\<close> by (simp add: memTWED_def memTWED_init_def Let_def)
  next
    case False
    then show ?thesis
      using \<open>0 \<le> nu\<close> memTWED_calculateCosts_mono [OF assms, of t1 t2 nu "length t1" "length t2"]
      by (auto simp: le_result_iff memTWED_def memTWED_init_def Let_def)
  qed
  show ?thesis using a b ..
qed

theorem cost_monotone_in_lambda_witness:
  "le_result (TWED [1, 2, 2] [1, 8, 8] (1/1000) (1/2)) (TWED [1, 2, 2] [1, 8, 8] 5 (1/2))
   \<and> le_result (memTWED [1, 2, 2] [1, 8, 8] (1/1000) (1/2) False)
                 (memTWED [1, 2, 2] [1, 8, 8] 5 (1/2) False)
   \<and> memTWED [1, 2, 2] [1, 8, 8] (1/1000) (1/2) False = Inr (Fin (3501/500))
   \<and> memTWED [1, 2, 2] [1, 8, 8] 5 (1/2) False = Inr (Fin 17)"
proof -
  have le: "(1/1000 :: real) \<le> 5" by simp
  have v1: "memTWED [1, 2, 2] [1, 8, 8] (1/1000) (1/2) False = Inr (Fin (3501/500))"
    by (simp add: mem_eval arr_eval)
  have v2: "memTWED [1, 2, 2] [1, 8, 8] 5 (1/2) False = Inr (Fin 17)"
    by (simp add: mem_eval arr_eval)
  from cost_monotone_in_lambda [OF le, of "[1, 2, 2]" "[1, 8, 8]" "1/2" False] v1 v2
  show ?thesis by simp
qed



section \<open>The batch engine against the pairwise engine\<close>













section \<open>The full matrix computes the recurrence on square inputs\<close>

lemma nth_update2:
  assumes "a < length M"
  shows "M[r := (M ! r)[c := v]] ! a ! b =
     (if a = r \<and> b = c \<and> b < length (M ! a) then v else M ! a ! b)"
  using assms by (cases "a = r") (auto simp: nth_list_update list_update_beyond not_less)

lemma TWED_init_matrix_cells:
  assumes "1 \<le> n" "n \<le> m"
  shows "\<exists>M. TWED_init_matrix n m = Inr M \<and> length M = n \<and> (\<forall>a<n. length (M ! a) = m)
     \<and> (\<forall>a<n. \<forall>b<m. M ! a ! b =
           (if a = 0 \<and> b = 0 then Fin 0
            else if b = 0 \<or> (a = 0 \<and> b < n) then PInf else Fin 0))"
proof -
  let ?I = "\<lambda>i M. length M = n \<and> (\<forall>a<n. length (M ! a) = m)
     \<and> (\<forall>a<n. \<forall>b<m. M ! a ! b = (if (b = 0 \<and> a < i) \<or> (a = 0 \<and> b < i) then PInf else Fin 0))"
  let ?f = "\<lambda>i M. bindE (set2 M i 0 PInf) (\<lambda>M'. set2 M' 0 i PInf)"
  have init: "?I 0 (zeros n m)" by (simp add: zeros_def)
  have step: "\<exists>s'. ?f i s = Inr s' \<and> ?I (Suc i) s'" if "0 \<le> i" "i < n" "?I i s" for i s
  proof -
    from that have s: "length s = n" "\<forall>a<n. length (s ! a) = m"
      and cells: "\<forall>a<n. \<forall>b<m. s ! a ! b = (if (b = 0 \<and> a < i) \<or> (a = 0 \<and> b < i) then PInf else Fin 0)"
      by auto
    have m0: "0 < m" "0 < n" "i < m" using assms that by simp_all
    let ?s1 = "s[i := (s ! i)[0 := PInf]]"
    let ?s2 = "?s1[0 := (?s1 ! 0)[i := PInf]]"
    have w1: "set2 s i 0 PInf = Inr ?s1" using s that m0 by (simp add: set2_def)
    have l1: "length ?s1 = n" "\<forall>a<n. length (?s1 ! a) = m" using s by simp_all
    have w2: "set2 ?s1 0 i PInf = Inr ?s2" using l1 m0 by (simp add: set2_def)
    have l2: "length ?s2 = n" "\<forall>a<n. length (?s2 ! a) = m" using l1 by simp_all
    have c1: "?s1 ! a ! b = (if a = i \<and> b = 0 then PInf else s ! a ! b)" if "a < n" "b < m" for a b
      using nth_update2 [of a s i 0 PInf b] that s by simp
    have c2: "?s2 ! a ! b = (if a = 0 \<and> b = i then PInf else ?s1 ! a ! b)" if "a < n" "b < m" for a b
      using nth_update2 [of a ?s1 0 i PInf b] that l1 by simp
    have "\<forall>a<n. \<forall>b<m. ?s2 ! a ! b =
        (if (b = 0 \<and> a < Suc i) \<or> (a = 0 \<and> b < Suc i) then PInf else Fin 0)"
    proof (intro allI impI)
      fix a b assume ab: "a < n" "b < m"
      have "s ! a ! b = (if (b = 0 \<and> a < i) \<or> (a = 0 \<and> b < i) then PInf else Fin 0)"
        using cells ab by blast
      then show "?s2 ! a ! b =
          (if (b = 0 \<and> a < Suc i) \<or> (a = 0 \<and> b < Suc i) then PInf else Fin 0)"
        unfolding c2 [OF ab] c1 [OF ab] by (auto simp: less_Suc_eq)
    qed
    then show ?thesis unfolding w1 bindE_simps w2 using l2 by blast
  qed
  have "\<exists>s'. foldE ?f [0..<n] (zeros n m) = Inr s' \<and> ?I n s'"
    by (rule foldE_upt_inv [where I = ?I, OF _ init step]) simp_all
  then obtain M where M0: "foldE ?f [0..<n] (zeros n m) = Inr M" and IM: "?I n M"
    by blast
  from IM have M1: "length M = n" ..
  from IM have M2: "\<forall>a<n. length (M ! a) = m" by blast
  from IM have M3: "\<forall>a<n. \<forall>b<m. M ! a ! b =
      (if (b = 0 \<and> a < n) \<or> (a = 0 \<and> b < n) then PInf else Fin 0)" by blast
  note M = M0 M1 M2 M3
  have m0: "0 < m" "0 < n" using assms by simp_all
  let ?M' = "M[0 := (M ! 0)[0 := Fin 0]]"
  have w: "set2 M 0 0 (Fin 0) = Inr ?M'" using M m0 by (simp add: set2_def)
  have l: "length ?M' = n" "\<forall>a<n. length (?M' ! a) = m" using M by simp_all
  have c: "?M' ! a ! b = (if a = 0 \<and> b = 0 then Fin 0 else M ! a ! b)" if "a < n" "b < m" for a b
    using nth_update2 [of a M 0 0 "Fin 0" b] that M by simp
  have "\<forall>a<n. \<forall>b<m. ?M' ! a ! b =
           (if a = 0 \<and> b = 0 then Fin 0
            else if b = 0 \<or> (a = 0 \<and> b < n) then PInf else Fin 0)"
  proof (intro allI impI)
    fix a b assume ab: "a < n" "b < m"
    have "M ! a ! b = (if (b = 0 \<and> a < n) \<or> (a = 0 \<and> b < n) then PInf else Fin 0)"
      using M(4) ab by blast
    then show "?M' ! a ! b =
           (if a = 0 \<and> b = 0 then Fin 0
            else if b = 0 \<or> (a = 0 \<and> b < n) then PInf else Fin 0)"
      unfolding c [OF ab] using ab by auto
  qed
  then show ?thesis unfolding TWED_init_matrix_def M(1) bindE_simps w using l by blast
qed

lemma TWED_body_step:
  assumes shape: "length M = n" "\<forall>a<n. length (M ! a) = m"
    and idx: "0 < i" "i < n" "0 < j" "j < m"
  shows "TWED_body nu lam t1 t2 i j M =
     Inr (M[i := (M ! i)[j := min3 (mem_deleteA nu lam t1 i (M ! (i - 1) ! j))
                                   (mem_deleteB nu lam t2 j (M ! i ! (j - 1)))
                                   (mem_match nu t1 t2 i j (M ! (i - 1) ! (j - 1)))]])"
proof -
  have li: "length (M ! i) = m" and lp: "length (M ! (i - 1)) = m"
    using shape idx by simp_all
  have r: "get2 M (i - 1) j = Inr (M ! (i - 1) ! j)" "get2 M i (j - 1) = Inr (M ! i ! (j - 1))"
    "get2 M (i - 1) (j - 1) = Inr (M ! (i - 1) ! (j - 1))"
    using shape(1) li lp idx by (auto simp: get2_def)
  have w: "set2 M i j v = Inr (M[i := (M ! i)[j := v]])" for v
    using shape(1) li idx by (simp add: set2_def)
  show ?thesis
    unfolding TWED_body_def r bindE_simps w TWED_mem_candidates [OF idx(1,3)] ..
qed

lemma TWED_inner:
  assumes shape: "length M = n" "\<forall>a<n. length (M ! a) = m"
    and idx: "0 < i" "i < n" "1 \<le> m"
    and known: "\<forall>a<n. \<forall>b<m. a < i \<or> b = 0 \<longrightarrow> M ! a ! b = twed_rec nu lam t1 t2 a b"
  shows "\<exists>M'. foldE (\<lambda>j M. TWED_body nu lam t1 t2 i j M) [1..<m] M = Inr M'
     \<and> length M' = n \<and> (\<forall>a<n. length (M' ! a) = m)
     \<and> (\<forall>a<n. \<forall>b<m. a < Suc i \<or> b = 0 \<longrightarrow> M' ! a ! b = twed_rec nu lam t1 t2 a b)"
proof -
  let ?K = "\<lambda>j M'. length M' = n \<and> (\<forall>a<n. length (M' ! a) = m)
     \<and> (\<forall>a<n. \<forall>b<m. a < i \<or> b = 0 \<or> (a = i \<and> b < j)
            \<longrightarrow> M' ! a ! b = twed_rec nu lam t1 t2 a b)"
  have init: "?K 1 M"
  proof (intro conjI allI impI)
    fix a b assume "a < n" "b < m" "a < i \<or> b = 0 \<or> (a = i \<and> b < 1)"
    then show "M ! a ! b = twed_rec nu lam t1 t2 a b" using known by auto
  qed (use shape in simp_all)
  have step: "\<exists>s'. TWED_body nu lam t1 t2 i j s = Inr s' \<and> ?K (Suc j) s'"
    if "1 \<le> j" "j < m" "?K j s" for j s
  proof -
    from that(3) have s1: "length s = n" ..
    from that(3) have s2: "\<forall>a<n. length (s ! a) = m" by blast
    from that(3) have cells: "\<forall>a<n. \<forall>b<m. a < i \<or> b = 0 \<or> (a = i \<and> b < j)
            \<longrightarrow> s ! a ! b = twed_rec nu lam t1 t2 a b" by blast
    have j0: "0 < j" using that by simp
    have up: "s ! (i - 1) ! j = twed_rec nu lam t1 t2 (i - 1) j"
      using cells [rule_format, of "i - 1" j] idx that by simp
    have left: "s ! i ! (j - 1) = twed_rec nu lam t1 t2 i (j - 1)"
      using cells [rule_format, of i "j - 1"] idx that by simp
    have diag: "s ! (i - 1) ! (j - 1) = twed_rec nu lam t1 t2 (i - 1) (j - 1)"
      using cells [rule_format, of "i - 1" "j - 1"] idx that by simp
    let ?v = "twed_rec nu lam t1 t2 i j"
    let ?s' = "s[i := (s ! i)[j := ?v]]"
    have body: "TWED_body nu lam t1 t2 i j s = Inr ?s'"
      unfolding TWED_body_step [OF s1 s2 idx(1,2) j0 that(2)] up left diag
      using twed_rec_step [OF idx(1) j0, of nu lam t1 t2] by simp
    have len: "length ?s' = n" "\<forall>a<n. length (?s' ! a) = m" using s1 s2 by simp_all
    have "\<forall>a<n. \<forall>b<m. a < i \<or> b = 0 \<or> (a = i \<and> b < Suc j)
            \<longrightarrow> ?s' ! a ! b = twed_rec nu lam t1 t2 a b"
    proof (intro allI impI)
      fix a b assume ab: "a < n" "b < m" and k: "a < i \<or> b = 0 \<or> (a = i \<and> b < Suc j)"
      have c: "?s' ! a ! b = (if a = i \<and> b = j \<and> b < length (s ! a) then ?v else s ! a ! b)"
        using nth_update2 [of a s i j ?v b] ab s1 by simp
      show "?s' ! a ! b = twed_rec nu lam t1 t2 a b"
      proof (cases "a = i \<and> b = j")
        case True
        then show ?thesis unfolding c using ab s2 by simp
      next
        case False
        then have "a < i \<or> b = 0 \<or> (a = i \<and> b < j)" using k by auto
        then have "s ! a ! b = twed_rec nu lam t1 t2 a b" using cells ab by blast
        then show ?thesis unfolding c using False by auto
      qed
    qed
    with body len show ?thesis by blast
  qed
  have "\<exists>s'. foldE (\<lambda>j M. TWED_body nu lam t1 t2 i j M) [1..<m] M = Inr s' \<and> ?K m s'"
    by (rule foldE_upt_inv [where I = ?K, OF idx(3) init step])
  then obtain M' where run: "foldE (\<lambda>j M. TWED_body nu lam t1 t2 i j M) [1..<m] M = Inr M'"
    and K: "?K m M'" by blast
  from K have l1: "length M' = n" ..
  from K have l2: "\<forall>a<n. length (M' ! a) = m" by blast
  from K have cells: "\<forall>a<n. \<forall>b<m. a < i \<or> b = 0 \<or> (a = i \<and> b < m)
            \<longrightarrow> M' ! a ! b = twed_rec nu lam t1 t2 a b" by blast
  have "\<forall>a<n. \<forall>b<m. a < Suc i \<or> b = 0 \<longrightarrow> M' ! a ! b = twed_rec nu lam t1 t2 a b"
  proof (intro allI impI)
    fix a b assume ab: "a < n" "b < m" and "a < Suc i \<or> b = 0"
    then have "a < i \<or> b = 0 \<or> (a = i \<and> b < m)" by auto
    then show "M' ! a ! b = twed_rec nu lam t1 t2 a b" using cells ab by blast
  qed
  with run l1 l2 show ?thesis by blast
qed

lemma TWED_sweep_rec:
  assumes shape: "length M = n" "\<forall>a<n. length (M ! a) = m"
    and idx: "1 \<le> n" "1 \<le> m"
    and known: "\<forall>a<n. \<forall>b<m. a < 1 \<or> b = 0 \<longrightarrow> M ! a ! b = twed_rec nu lam t1 t2 a b"
  shows "\<exists>M'. TWED_sweep nu lam t1 t2 n m M = Inr M' \<and> length M' = n
     \<and> (\<forall>a<n. length (M' ! a) = m)
     \<and> (\<forall>a<n. \<forall>b<m. M' ! a ! b = twed_rec nu lam t1 t2 a b)"
proof -
  let ?O = "\<lambda>i M'. length M' = n \<and> (\<forall>a<n. length (M' ! a) = m)
     \<and> (\<forall>a<n. \<forall>b<m. a < i \<or> b = 0 \<longrightarrow> M' ! a ! b = twed_rec nu lam t1 t2 a b)"
  let ?f = "\<lambda>i M. foldE (\<lambda>j M. TWED_body nu lam t1 t2 i j M) [1..<m] M"
  have init: "?O 1 M" using shape known by blast
  have step: "\<exists>s'. ?f i s = Inr s' \<and> ?O (Suc i) s'" if "1 \<le> i" "i < n" "?O i s" for i s
  proof -
    from that(3) have s1: "length s = n" ..
    from that(3) have s2: "\<forall>a<n. length (s ! a) = m" by blast
    from that(3) have cells: "\<forall>a<n. \<forall>b<m. a < i \<or> b = 0
        \<longrightarrow> s ! a ! b = twed_rec nu lam t1 t2 a b" by blast
    have i0: "0 < i" using that by simp
    show ?thesis by (rule TWED_inner [OF s1 s2 i0 that(2) idx(2) cells])
  qed
  have "\<exists>s'. foldE ?f [1..<n] M = Inr s' \<and> ?O n s'"
    by (rule foldE_upt_inv [where I = ?O, OF idx(1) init step])
  then obtain M' where run: "foldE ?f [1..<n] M = Inr M'" and O: "?O n M'" by blast
  from O have l1: "length M' = n" ..
  from O have l2: "\<forall>a<n. length (M' ! a) = m" by blast
  from O have "\<forall>a<n. \<forall>b<m. M' ! a ! b = twed_rec nu lam t1 t2 a b" by blast
  with run l1 l2 show ?thesis unfolding TWED_sweep_def by blast
qed

lemma TWED_square:
  assumes "length t1 = length t2" "1 \<le> length t1" "0 \<le> nu"
  shows "TWED t1 t2 lam nu = Inr (twed_rec nu lam t1 t2 (length t1 - 1) (length t2 - 1))"
proof -
  let ?n = "length t1"
  have m: "length t2 = ?n" using assms(1) by simp
  from TWED_init_matrix_cells [OF assms(2) order_refl]
  obtain M where init: "TWED_init_matrix ?n ?n = Inr M" and l1: "length M = ?n"
    and l2: "\<forall>a<?n. length (M ! a) = ?n"
    and cells: "\<forall>a<?n. \<forall>b<?n. M ! a ! b =
           (if a = 0 \<and> b = 0 then Fin 0
            else if b = 0 \<or> (a = 0 \<and> b < ?n) then PInf else Fin 0)" by blast
  have known: "\<forall>a<?n. \<forall>b<?n. a < 1 \<or> b = 0 \<longrightarrow> M ! a ! b = twed_rec nu lam t1 t2 a b"
  proof (intro allI impI)
    fix a b assume ab: "a < ?n" "b < ?n" and k: "a < 1 \<or> b = 0"
    have c: "M ! a ! b = (if a = 0 \<and> b = 0 then Fin 0
            else if b = 0 \<or> (a = 0 \<and> b < ?n) then PInf else Fin 0)"
      using cells ab by blast
    show "M ! a ! b = twed_rec nu lam t1 t2 a b"
      unfolding c using k ab by (cases a; cases b) simp_all
  qed
  from TWED_sweep_rec [OF l1 l2 assms(2) assms(2) known]
  obtain M' where run: "TWED_sweep nu lam t1 t2 ?n ?n M = Inr M'" and l1': "length M' = ?n"
    and l2': "\<forall>a<?n. length (M' ! a) = ?n"
    and res: "\<forall>a<?n. \<forall>b<?n. M' ! a ! b = twed_rec nu lam t1 t2 a b" by blast
  have last: "?n - 1 < ?n" using assms(2) by simp
  have lr: "length (M' ! (?n - 1)) = ?n" using l2' last by blast
  have ix: "py_index ?n (int ?n - 1) = Inr (?n - 1)"
    using assms(2) by (auto simp: py_index_def)
  have "get2_py M' (int ?n - 1) (int ?n - 1) = Inr (M' ! (?n - 1) ! (?n - 1))"
    unfolding get2_py_def l1' ix bindE_simps lr ..
  also have "M' ! (?n - 1) ! (?n - 1) = twed_rec nu lam t1 t2 (?n - 1) (?n - 1)"
    using res last by blast
  finally have "get2_py M' (int ?n - 1) (int ?n - 1)
      = Inr (twed_rec nu lam t1 t2 (?n - 1) (?n - 1))" .
  then show ?thesis
    using assms(3) init run by (simp add: TWED_def TWED_init_def TWED_calculateCosts_def m)
qed

text \<open>
  On two series of the same length, at least 2, the rolling-buffer engine and the
  full-matrix engine return the same cost: the cell \<open>(n - 1, n - 1)\<close> of the
  recurrence.
\<close>

lemma engines_agree_on_equal_lengths:
  assumes "length t1 = length t2" "2 \<le> length t1" "0 \<le> nu"
  shows "memTWED t1 t2 lam nu strict = TWED t1 t2 lam nu"
    and "TWED t1 t2 lam nu = Inr (twed_rec nu lam t1 t2 (length t1 - 1) (length t2 - 1))"
proof -
  show "TWED t1 t2 lam nu = Inr (twed_rec nu lam t1 t2 (length t1 - 1) (length t2 - 1))"
    by (rule TWED_square) (use assms in simp_all)
  moreover have "memTWED t1 t2 lam nu strict =
      Inr (twed_rec nu lam t1 t2 (length t1 - 1) (length t2 - 1))"
    by (rule memTWED_rec) (use assms in simp_all)
  ultimately show "memTWED t1 t2 lam nu strict = TWED t1 t2 lam nu" by simp
qed



section \<open>What the batch engine accepts and reads\<close>

lemma foldE_cong:
  assumes "\<And>x s. x \<in> set xs \<Longrightarrow> f x s = g x s"
  shows "foldE f xs s = foldE g xs s"
  using assms by (induction xs arbitrary: s) (simp_all split: sum.splits)

lemma t2_col_take:
  assumes "t2 \<noteq> []" "n \<le> ncols t2" "j < n"
  shows "t2_col (map (take n) t2) j = t2_col t2 j"
proof -
  have "ncols (map (take n) t2) = n"
    using assms(1,2) by (simp add: ncols_def hd_map)
  then show ?thesis using assms(2,3) by (simp add: t2_col_def)
qed

lemma multi_body_take:
  assumes "t2 \<noteq> []" "n \<le> ncols t2" "0 < j" "j < n"
  shows "multi_body nu lam t1 (map (take n) t2) n i mi ai j M =
     multi_body nu lam t1 t2 n i mi ai j M"
proof -
  have a: "t2_col (map (take n) t2) (j - 1) = t2_col t2 (j - 1)"
    by (rule t2_col_take [OF assms(1,2)]) (use assms(4) in simp)
  have b: "t2_col (map (take n) t2) j = t2_col t2 j"
    by (rule t2_col_take [OF assms(1,2,4)])
  show ?thesis unfolding multi_body_def a b ..
qed

lemma multi_outer_take:
  assumes "t2 \<noteq> []" "n \<le> ncols t2"
  shows "multi_outer nu lam t1 (map (take n) t2) n n i st = multi_outer nu lam t1 t2 n n i st"
proof -
  have "foldE (\<lambda>j M. multi_body nu lam t1 (map (take n) t2) n i mi ai j M) [1..<n] M =
      foldE (\<lambda>j M. multi_body nu lam t1 t2 n i mi ai j M) [1..<n] M" for mi ai M
    by (rule foldE_cong) (simp add: multi_body_take [OF assms])
  then show ?thesis unfolding multi_outer_def by simp
qed

lemma multiTWED_take:
  assumes "t2 \<noteq> []" "list_all (\<lambda>r. length r = length (hd t2)) t2"
    and "length t1 \<le> length (hd t2)"
  shows "multiTWED t1 (map (take (length t1)) t2) lam nu = multiTWED t1 t2 lam nu"
proof (cases "0 \<le> nu")
  case False
  then show ?thesis by (simp add: multiTWED_def multiTWED_init_def)
next
  case True
  let ?n = "length t1" and ?t = "map (take (length t1)) t2"
  have nc: "?n \<le> ncols t2" using assms(3) by (simp add: ncols_def)
  have sh: "shape_dims t2 = 2" using assms(1,2) by (simp add: shape_dims_def)
  have rows: "\<And>r. r \<in> set t2 \<Longrightarrow> length r = length (hd t2)"
    using assms(2) by (simp add: list_all_iff)
  have hd: "hd ?t = take ?n (hd t2)" using assms(1) by (simp add: hd_map)
  have "\<And>r. r \<in> set ?t \<Longrightarrow> length r = length (hd ?t)"
    unfolding hd using rows by auto
  then have "list_all (\<lambda>r. length r = length (hd ?t)) ?t"
    unfolding list_all_iff by blast
  then have sh': "shape_dims ?t = 2" using assms(1) by (simp add: shape_dims_def)
  have loop: "foldE (multi_outer nu lam t1 ?t ?n ?n) [1..<?n] s =
      foldE (multi_outer nu lam t1 t2 ?n ?n) [1..<?n] s" for s
    by (rule foldE_cong) (rule multi_outer_take [OF assms(1) nc])
  have i1: "multiTWED_init t1 ?t lam nu = Inr \<lparr>mu_t1 = t1, mu_t2 = ?t, mu_lambda = lam,
      mu_nu = nu, mu_n = ?n, mu_m = ?n, mu_numSeries = length t2\<rparr>"
    using True sh' by (simp add: multiTWED_init_def Let_def)
  have i2: "multiTWED_init t1 t2 lam nu = Inr \<lparr>mu_t1 = t1, mu_t2 = t2, mu_lambda = lam,
      mu_nu = nu, mu_n = ?n, mu_m = ?n, mu_numSeries = length t2\<rparr>"
    using True sh by (simp add: multiTWED_init_def Let_def)
  show ?thesis
    unfolding multiTWED_def i1 i2 bindE_simps multiTWED_calculateCosts_def
    by (simp add: loop [unfolded One_nat_def] cong: option.case_cong)
qed

text \<open>
  C4 amended: the constructor fails exactly when \<open>nu < 0\<close> or the batch is not a
  two-dimensional array (it is empty or ragged); the length of the rows is not
  compared with \<open>len(t1)\<close>, so every rectangular batch is accepted, in particular one
  whose rows have the length of the reference series. A call on a rectangular batch
  whose rows are at least as long as the reference series reads the first \<open>len(t1)\<close>
  samples of each row only.
\<close>

theorem multiTWED_init_accepts:
  "(\<exists>self. multiTWED_init t1 t2 lam nu = Inr self)
     = (nu \<ge> 0 \<and> t2 \<noteq> [] \<and> list_all (\<lambda>r. length r = length (hd t2)) t2)
   \<and> (t2 \<noteq> [] \<and> list_all (\<lambda>r. length r = length (hd t2)) t2
        \<and> length t1 \<le> length (hd t2)
      \<longrightarrow> multiTWED t1 t2 lam nu = multiTWED t1 (map (take (length t1)) t2) lam nu)"
proof
  show "(\<exists>self. multiTWED_init t1 t2 lam nu = Inr self)
     = (nu \<ge> 0 \<and> t2 \<noteq> [] \<and> list_all (\<lambda>r. length r = length (hd t2)) t2)"
  proof (cases "nu \<ge> 0 \<and> t2 \<noteq> [] \<and> list_all (\<lambda>r. length r = length (hd t2)) t2")
    case True
    then show ?thesis by (simp add: multiTWED_init_def shape_dims_def Let_def)
  next
    case False
    then have "\<not> nu \<ge> 0 \<or> shape_dims t2 \<noteq> 2" by (auto simp: shape_dims_def)
    then have "\<exists>e. multiTWED_init t1 t2 lam nu = Inl e"
      unfolding multiTWED_init_def Let_def by (cases "nu \<ge> 0") simp_all
    with False show ?thesis by auto
  qed
  show "t2 \<noteq> [] \<and> list_all (\<lambda>r. length r = length (hd t2)) t2
        \<and> length t1 \<le> length (hd t2)
      \<longrightarrow> multiTWED t1 t2 lam nu = multiTWED t1 (map (take (length t1)) t2) lam nu"
    using multiTWED_take [of t2 t1 lam nu] by simp
qed

theorem multiTWED_init_accepts_witness:
  "(\<exists>self. multiTWED_init [1, 2] [[1, 2], [2, 1]] (1/1000) (1/2) = Inr self)
   \<and> \<not> (\<exists>self. multiTWED_init [1, 2] [[1, 2], [2]] (1/1000) (1/2) = Inr self)
   \<and> multiTWED [1, 2] [[1, 2, 3]] (1/1000) (1/2)
       = multiTWED [1, 2] (map (take (length [1, 2 :: real])) [[1, 2, 3]]) (1/1000) (1/2)"
  using multiTWED_init_accepts [of "[1, 2]" "[[1, 2], [2, 1]]" "1/1000" "1/2"]
    multiTWED_init_accepts [of "[1, 2]" "[[1, 2], [2]]" "1/1000" "1/2"]
    multiTWED_init_accepts [of "[1, 2]" "[[1, 2, 3]]" "1/1000" "1/2"]
  by simp

end
